theory Spec2Isabelle
  imports Complex_Main
begin

section \<open>The spectrum history of \<open>AudioSpectrum.tsx\<close>\<close>

text \<open>
  The component keeps \<open>spectrumHistory : SpectrumData[]\<close>. A timestamp is the value of
  \<open>Date.now()\<close>, an integer number of milliseconds, so it is an \<open>int\<close> here; the
  frequencies are the bytes of a \<open>Uint8Array\<close>, natural numbers below 256.
\<close>

record SpectrumData =
  timestamp :: int
  frequencies :: "nat list"

definition HISTORY_DURATION :: int where
  "HISTORY_DURATION = 5 * 60 * 1000"

definition FFT_SIZE :: nat where
  "FFT_SIZE = 2048"

definition CANVAS_WIDTH :: nat where
  "CANVAS_WIDTH = 800"

definition CANVAS_HEIGHT :: nat where
  "CANVAS_HEIGHT = 400"

text \<open>
  The updater that \<open>animate\<close> hands to \<open>setSpectrumHistory\<close> (lines 100-104):
  \<^verbatim>\<open>prev => { const updated = [...prev, newSpectrumData];
            return updated.filter(data => now - data.timestamp <= HISTORY_DURATION); }\<close>
  The retention window is a parameter \<open>W\<close>; the program passes \<open>HISTORY_DURATION\<close>.
\<close>

definition historyUpdater :: "int \<Rightarrow> int \<Rightarrow> SpectrumData \<Rightarrow> SpectrumData list \<Rightarrow> SpectrumData list" where
  "historyUpdater W now newSpectrumData prev =
     (let updated = prev @ [newSpectrumData]
      in filter (\<lambda>data. now - timestamp data \<le> W) updated)"

text \<open>
  One frame reads the clock once (\<open>now\<close>), stamps the new snapshot with it and runs
  the updater with the same \<open>now\<close>.
\<close>

definition appendFrame :: "int \<Rightarrow> SpectrumData list \<Rightarrow> int \<times> nat list \<Rightarrow> SpectrumData list" where
  "appendFrame W prev frame =
     (let now = fst frame;
          newSpectrumData = \<lparr>timestamp = now, frequencies = snd frame\<rparr>
      in historyUpdater W now newSpectrumData prev)"

text \<open>A sequence of frames, oldest first, each given by its clock value and its bytes.\<close>

definition appendFrames :: "int \<Rightarrow> SpectrumData list \<Rightarrow> (int \<times> nat list) list \<Rightarrow> SpectrumData list" where
  "appendFrames W prev frames = foldl (appendFrame W) prev frames"

section \<open>Numbers, canvas and drawing calls\<close>

text \<open>
  A JavaScript number is a double. A finite value is taken as the real number it stands
  for: rounding is not part of this model, and no statement below rests on two doubles
  being exactly equal after rounding. \<open>NaN\<close>, \<open>Infinity\<close> and \<open>-Infinity\<close> are the
  one value \<open>NonFinite\<close>. The canvas ignores a call that has a non-finite argument, and
  every comparison the program makes with such a value is false or guarded away, so the
  three need not be told apart.
\<close>

datatype jsnum = Num real | NonFinite

text \<open>\<open>x + c\<close> for a finite \<open>c\<close>.\<close>

fun js_add :: "jsnum \<Rightarrow> real \<Rightarrow> jsnum" where
  "js_add (Num x) c = Num (x + c)"
| "js_add NonFinite c = NonFinite"

record canvas =
  width :: nat
  height :: nat
  context2d :: bool \<comment> \<open>whether \<open>getContext('2d')\<close> returns a context\<close>

record AudioContext =
  ctx_id :: nat
  sampleRate :: real

record AnalyserNode =
  fftSize :: nat

definition frequencyBinCount :: "AnalyserNode \<Rightarrow> nat" where
  "frequencyBinCount analyser = fftSize analyser div 2"

text \<open>The calls made on the 2D context, in the order made.\<close>

datatype draw_op =
    FillStyle string
  | FillStyleHsl real real \<comment> \<open>\<open>hsl(hue, 100%, lightness%)\<close>\<close>
  | FillRect jsnum jsnum jsnum jsnum
  | StrokeStyle string
  | LineWidth real
  | BeginPath
  | MoveTo jsnum jsnum
  | LineTo jsnum jsnum
  | Stroke
  | Font string
  | FillText string jsnum jsnum

text \<open>
  \<open>dataArray[binIndex]\<close> on a typed array: \<open>undefined\<close> (here \<open>None\<close>) outside the array.
\<close>

definition typed_array_get :: "nat list \<Rightarrow> int \<Rightarrow> nat option" where
  "typed_array_get dataArray i =
     (if 0 \<le> i \<and> nat i < length dataArray then Some (dataArray ! nat i) else None)"

section \<open>The coordinate mappings\<close>

text \<open>
  Lines 169-177 of \<open>draw220HzLine\<close>, with the target frequency a parameter:
  \<^verbatim>\<open>x = ((Math.log10(freq) - Math.log10(20)) / (Math.log10(nyquist) - Math.log10(20))) * width\<close>
  \<open>Math.log10\<close> is \<open>NaN\<close> below zero and \<open>-Infinity\<close> at zero. With \<open>nyquist = 0\<close> and a
  positive frequency the quotient is a finite number over \<open>-Infinity\<close>, which is zero.
\<close>

definition frequencyToX :: "real \<Rightarrow> real \<Rightarrow> real \<Rightarrow> jsnum" where
  "frequencyToX freq nyquist canvasWidth =
     (if freq \<le> 0 \<or> nyquist < 0 \<or> nyquist = 20 then NonFinite
      else if nyquist = 0 then Num 0
      else let logMinFreq = log 10 20;
               logMaxFreq = log 10 nyquist;
               logRange = logMaxFreq - logMinFreq
           in Num (((log 10 freq - logMinFreq) / logRange) * canvasWidth))"

text \<open>
  Lines 147-148 of \<open>drawLogSpectrum\<close>, the frequency of a pixel column, for a positive
  Nyquist frequency and a positive width (the loop runs only below the width):
  \<^verbatim>\<open>logFreq = logMinFreq + (pixelX / canvas.width) * logRange; freq = Math.pow(10, logFreq)\<close>
\<close>

definition pixelToFreq :: "real \<Rightarrow> real \<Rightarrow> real \<Rightarrow> real" where
  "pixelToFreq pixelX nyquist canvasWidth =
     (let logMinFreq = log 10 20;
          logMaxFreq = log 10 nyquist;
          logRange = logMaxFreq - logMinFreq;
          logFreq = logMinFreq + (pixelX / canvasWidth) * logRange
      in 10 powr logFreq)"

text \<open>
  Lines 133 and 151: \<open>binIndex = Math.round(freq / frequencyPerBin)\<close> with
  \<open>frequencyPerBin = nyquist / bufferLength\<close>. \<open>Math.round\<close> rounds halves up, as
  \<open>round\<close> does. A Nyquist frequency that is not positive makes the logarithms, and with
  them the index, \<open>NaN\<close> (\<open>None\<close>); a buffer length of zero makes \<open>frequencyPerBin\<close>
  infinite and the index zero.
\<close>

definition binIndexAt :: "real \<Rightarrow> nat \<Rightarrow> real \<Rightarrow> real \<Rightarrow> int option" where
  "binIndexAt nyquist bufferLength canvasWidth pixelX =
     (if nyquist \<le> 0 then None
      else if bufferLength = 0 then Some 0
      else let frequencyPerBin = nyquist / real bufferLength;
               freq = pixelToFreq pixelX nyquist canvasWidth
           in Some (round (freq / frequencyPerBin)))"

section \<open>The renderer\<close>

text \<open>The body of the loop of \<open>drawLogSpectrum\<close> (lines 146-157) for one column.\<close>

definition drawBar :: "canvas \<Rightarrow> real \<Rightarrow> nat list \<Rightarrow> nat \<Rightarrow> nat \<Rightarrow> draw_op list" where
  "drawBar cv nyquist dataArray bufferLength pixelX =
     (case binIndexAt nyquist bufferLength (real (width cv)) (real pixelX) of
        None \<Rightarrow> []
      | Some binIndex \<Rightarrow>
          if binIndex \<ge> 0 \<and> binIndex < int bufferLength then
            (case typed_array_get dataArray binIndex of
               Some amplitude \<Rightarrow>
                 let barHeight = (real amplitude / 255) * real (height cv)
                 in [FillRect (Num (real pixelX)) (Num (real (height cv) - barHeight)) (Num 2) (Num barHeight)]
             | None \<Rightarrow> [FillRect (Num (real pixelX)) NonFinite (Num 2) NonFinite])
          else [])"

function drawLogSpectrum_loop :: "canvas \<Rightarrow> real \<Rightarrow> nat list \<Rightarrow> nat \<Rightarrow> nat \<Rightarrow> draw_op list" where
  "drawLogSpectrum_loop cv nyquist dataArray bufferLength pixelX =
     (if pixelX < width cv
      then drawBar cv nyquist dataArray bufferLength pixelX
             @ drawLogSpectrum_loop cv nyquist dataArray bufferLength (pixelX + 2)
      else [])"
  by pat_completeness auto
termination
  by (relation "measure (\<lambda>(cv, nyquist, dataArray, bufferLength, pixelX). width cv - pixelX)") auto

declare drawLogSpectrum_loop.simps [simp del]

definition drawLogSpectrum :: "AudioContext option \<Rightarrow> canvas \<Rightarrow> nat list \<Rightarrow> nat \<Rightarrow> draw_op list" where
  "drawLogSpectrum audioContextRef cv dataArray bufferLength =
     (case audioContextRef of
        None \<Rightarrow> []
      | Some audioContext \<Rightarrow>
          let nyquist = sampleRate audioContext / 2
          in FillStyle ''#00ff00'' # drawLogSpectrum_loop cv nyquist dataArray bufferLength 0)"

definition draw220HzLine :: "AudioContext option \<Rightarrow> canvas \<Rightarrow> nat \<Rightarrow> draw_op list" where
  "draw220HzLine audioContextRef cv bufferLength =
     (case audioContextRef of
        None \<Rightarrow> []
      | Some audioContext \<Rightarrow>
          let nyquist = sampleRate audioContext / 2;
              x = frequencyToX 220 nyquist (real (width cv))
          in [StrokeStyle ''#ffffff'', LineWidth 2, BeginPath,
              MoveTo x (Num 0), LineTo x (Num (real (height cv) * 2 / 3)), Stroke,
              FillStyle ''#ffffff'', Font ''12px Arial'',
              FillText ''220Hz'' (js_add x 5) (Num 15)])"

text \<open>
  One cell of the spectrogram (lines 213-219). \<open>freqStep\<close> is the height of the band
  over the number of bins of the entry; a cell exists only when that number is positive.
  \<open>x\<close> (lines 203 and 209) is \<open>canvas.width - age * (canvas.width / timeRange)\<close> with
  the constant \<open>timeRange = HISTORY_DURATION\<close>, which is not zero.
\<close>

definition drawCell :: "real \<Rightarrow> real \<Rightarrow> real \<Rightarrow> nat \<times> nat \<Rightarrow> draw_op list" where
  "drawCell x spectrogramY freqStep cell =
     (let freqIndex = fst cell;
          amplitude = snd cell;
          y = spectrogramY + (real freqIndex * freqStep);
          intensity = real amplitude / 255;
          hue = 240 - (intensity * 240)
      in [FillStyleHsl hue (50 * intensity), FillRect (Num x) (Num y) (Num 2) (Num freqStep)])"

definition drawEntry :: "canvas \<Rightarrow> int \<Rightarrow> SpectrumData \<Rightarrow> draw_op list" where
  "drawEntry cv now data =
     (let spectrogramHeight = real (height cv) / 3;
          spectrogramY = real (height cv) - spectrogramHeight;
          timeRange = HISTORY_DURATION;
          pixelsPerMs = real (width cv) / real_of_int timeRange;
          age = now - timestamp data
      in if age > timeRange then []
         else let x = real (width cv) - (real_of_int age * pixelsPerMs);
                  freqStep = spectrogramHeight / real (length (frequencies data))
              in concat (map (drawCell x spectrogramY freqStep) (enumerate 0 (frequencies data))))"

definition drawSpectrogram :: "canvas \<Rightarrow> int \<Rightarrow> SpectrumData list \<Rightarrow> draw_op list" where
  "drawSpectrogram cv now spectrumHistory =
     (if length spectrumHistory = 0 then []
      else let spectrogramHeight = real (height cv) / 3;
               spectrogramY = real (height cv) - spectrogramHeight
           in concat (map (drawEntry cv now) spectrumHistory)
              @ [FillStyle ''#fff'', Font ''12px Arial'',
                 FillText ''Now'' (Num (real (width cv) - 30)) (Num (spectrogramY - 5)),
                 FillText ''5 min ago'' (Num 10) (Num (spectrogramY - 5))])"

text \<open>
  \<open>drawSpectrum\<close> (lines 110-125). \<open>spectrumHistory\<close> is the value the closure of this
  render holds, and \<open>drawNow\<close> the clock value \<open>drawSpectrogram\<close> reads for itself.
\<close>

definition drawSpectrum ::
  "AudioContext option \<Rightarrow> canvas \<Rightarrow> nat list \<Rightarrow> nat \<Rightarrow> int \<Rightarrow> SpectrumData list \<Rightarrow> draw_op list" where
  "drawSpectrum audioContextRef cv dataArray bufferLength drawNow spectrumHistory =
     [FillStyle ''#000'', FillRect (Num 0) (Num 0) (Num (real (width cv))) (Num (real (height cv)))]
     @ drawLogSpectrum audioContextRef cv dataArray bufferLength
     @ draw220HzLine audioContextRef cv bufferLength
     @ drawSpectrogram cv drawNow spectrumHistory"

section \<open>The capture lifecycle\<close>

text \<open>
  The state is the component's refs and React state together with what the host holds
  for it: the animation-frame requests that are neither run nor cancelled, the tracks
  that were stopped, the audio contexts that were closed, the console's error log and
  the drawing calls of each frame drawn, and the calls of \<open>startAudioAnalysis\<close> that
  are suspended at \<open>await getUserMedia\<close> (each with the device it asked for).
  \<open>requestAnimationFrame\<close> hands out positive handles, so \<open>animationRef.current = 0\<close>
  (its initial value) names no request.
\<close>

record MediaStream =
  tracks :: "nat list"

record state =
  selectedMicrophone :: string
  canvasRef :: "canvas option"
  audioContextRef :: "AudioContext option"
  analyserRef :: "AnalyserNode option"
  streamRef :: "MediaStream option"
  animationRef :: nat
  spectrumHistory :: "SpectrumData list"
  isActive :: bool
  pendingFrames :: "nat list"
  nextFrameId :: nat
  stoppedTracks :: "nat set"
  closedContexts :: "nat set"
  consoleErrors :: "string list"
  drawn :: "draw_op list list"
  awaitingUserMedia :: "string list"

text \<open>
  What one frame reads from outside: \<open>Date.now()\<close> in \<open>animate\<close>, \<open>Date.now()\<close> in
  \<open>drawSpectrogram\<close>, the bytes the analyser writes, and the \<open>spectrumHistory\<close> held by
  the closure that runs.
\<close>

record frame_input =
  clock :: int
  drawClock :: int
  samples :: "nat list"
  seenHistory :: "SpectrumData list"

text \<open>
  What the host answers during \<open>startAudioAnalysis\<close>; \<open>Inl\<close> is a thrown error (a
  rejected promise for \<open>getUserMedia\<close>). \<open>createMediaStreamSource\<close> covers the
  \<open>connect\<close> that follows it.
\<close>

record acquisition =
  getUserMedia :: "string + MediaStream"
  newAudioContext :: "string + AudioContext"
  createAnalyser :: "string + AnalyserNode"
  createMediaStreamSource :: "string + unit"

definition initial :: "canvas \<Rightarrow> state" where
  "initial cv =
     \<lparr>selectedMicrophone = [], canvasRef = Some cv, audioContextRef = None, analyserRef = None,
      streamRef = None, animationRef = 0, spectrumHistory = [], isActive = False,
      pendingFrames = [], nextFrameId = 1, stoppedTracks = {}, closedContexts = {},
      consoleErrors = [], drawn = [], awaitingUserMedia = []\<rparr>"

text \<open>
  \<open>new Uint8Array(bufferLength)\<close> filled by \<open>getByteFrequencyData\<close>: \<open>bufferLength\<close>
  bytes.
\<close>

definition getByteFrequencyData :: "frame_input \<Rightarrow> nat \<Rightarrow> nat list" where
  "getByteFrequencyData fi bufferLength =
     map (\<lambda>i. (if i < length (samples fi) then samples fi ! i else 0) mod 256) [0..<bufferLength]"

text \<open>\<open>animate\<close> (lines 82-108).\<close>

definition animate :: "frame_input \<Rightarrow> state \<Rightarrow> state" where
  "animate fi s =
     (case analyserRef s of
        None \<Rightarrow> s
      | Some analyser \<Rightarrow>
          (case canvasRef s of
             None \<Rightarrow> s
           | Some cv \<Rightarrow>
               if \<not> context2d cv then s
               else
                 let bufferLength = frequencyBinCount analyser;
                     dataArray = getByteFrequencyData fi bufferLength;
                     now = clock fi;
                     newSpectrumData = \<lparr>timestamp = now, frequencies = dataArray\<rparr>;
                     ops = drawSpectrum (audioContextRef s) cv dataArray bufferLength
                             (drawClock fi) (seenHistory fi);
                     handle = nextFrameId s
                 in s\<lparr>spectrumHistory :=
                        historyUpdater HISTORY_DURATION now newSpectrumData (spectrumHistory s),
                      drawn := drawn s @ [ops],
                      pendingFrames := pendingFrames s @ [handle],
                      nextFrameId := handle + 1,
                      animationRef := handle\<rparr>))"

text \<open>The host runs the oldest pending animation-frame request, if there is one.\<close>

definition runFrame :: "state \<Rightarrow> frame_input \<Rightarrow> state" where
  "runFrame s fi =
     (case pendingFrames s of
        [] \<Rightarrow> s
      | handle # rest \<Rightarrow> animate fi (s\<lparr>pendingFrames := rest\<rparr>))"

definition runFrames :: "state \<Rightarrow> frame_input list \<Rightarrow> state" where
  "runFrames s fis = foldl runFrame s fis"

text \<open>\<open>stopAudioAnalysis\<close> (lines 63-80).\<close>

definition stopAudioAnalysis :: "state \<Rightarrow> state" where
  "stopAudioAnalysis s =
     (let s1 = (if animationRef s \<noteq> 0
                then s\<lparr>pendingFrames := removeAll (animationRef s) (pendingFrames s)\<rparr>
                else s);
          s2 = (case streamRef s1 of
                  None \<Rightarrow> s1
                | Some stream \<Rightarrow>
                    s1\<lparr>stoppedTracks := stoppedTracks s1 \<union> set (tracks stream), streamRef := None\<rparr>);
          s3 = (case audioContextRef s2 of
                  None \<Rightarrow> s2
                | Some audioContext \<Rightarrow>
                    s2\<lparr>closedContexts := insert (ctx_id audioContext) (closedContexts s2),
                       audioContextRef := None\<rparr>)
      in s3\<lparr>analyserRef := None, isActive := False\<rparr>)"

text \<open>
  \<open>startAudioAnalysis\<close> (lines 36-61) is asynchronous. The call itself runs up to
  \<open>await navigator.mediaDevices.getUserMedia(constraints)\<close> (line 42) and returns to
  its caller; the effect, frames and further calls run before the promise settles.
\<close>

definition startAudioAnalysis :: "state \<Rightarrow> state" where
  "startAudioAnalysis s = s\<lparr>awaitingUserMedia := awaitingUserMedia s @ [selectedMicrophone s]\<rparr>"

text \<open>\<open>catchError\<close> is the \<open>catch\<close> block (lines 57-60).\<close>

definition catchError :: "string \<Rightarrow> state \<Rightarrow> state" where
  "catchError e s = s\<lparr>consoleErrors := consoleErrors s @ [e], isActive := False\<rparr>"

text \<open>
  The rest of \<open>startAudioAnalysis\<close> (lines 42-60), run when the promise has settled, with
  the host's answers \<open>acq\<close>. It reads and writes the refs as they are at that moment.
\<close>

definition startAudioAnalysis_resumed :: "acquisition \<Rightarrow> frame_input \<Rightarrow> state \<Rightarrow> state" where
  "startAudioAnalysis_resumed acq fi s =
     (case getUserMedia acq of
        Inl e \<Rightarrow> catchError e s
      | Inr stream \<Rightarrow>
          let s1 = s\<lparr>streamRef := Some stream\<rparr>
          in (case newAudioContext acq of
                Inl e \<Rightarrow> catchError e s1
              | Inr audioContext \<Rightarrow>
                  let s2 = s1\<lparr>audioContextRef := Some audioContext\<rparr>
                  in (case createAnalyser acq of
                        Inl e \<Rightarrow> catchError e s2
                      | Inr analyser \<Rightarrow>
                          let s3 = s2\<lparr>analyserRef := Some (analyser\<lparr>fftSize := FFT_SIZE\<rparr>)\<rparr>
                          in (case createMediaStreamSource acq of
                                Inl e \<Rightarrow> catchError e s3
                              | Inr u \<Rightarrow> animate fi (s3\<lparr>isActive := True\<rparr>)))))"

text \<open>
  The host settles the oldest pending \<open>getUserMedia\<close> promise, if there is one. The
  code after the \<open>await\<close> is the same whichever call it belongs to.
\<close>

definition settleUserMedia :: "acquisition \<Rightarrow> frame_input \<Rightarrow> state \<Rightarrow> state" where
  "settleUserMedia acq fi s =
     (case awaitingUserMedia s of
        [] \<Rightarrow> s
      | deviceId # rest \<Rightarrow> startAudioAnalysis_resumed acq fi (s\<lparr>awaitingUserMedia := rest\<rparr>))"

text \<open>
  The effect on \<open>selectedMicrophone\<close> (lines 26-34). A run of the effect that started
  an analysis left \<open>stopAudioAnalysis\<close> as its cleanup, which runs before the next run
  of the effect and at unmount.
\<close>

definition effectCleanup :: "state \<Rightarrow> state" where
  "effectCleanup s = (if selectedMicrophone s \<noteq> [] then stopAudioAnalysis s else s)"

definition selectMicrophone :: "string \<Rightarrow> state \<Rightarrow> state" where
  "selectMicrophone m s =
     (if m = selectedMicrophone s then s
      else let s1 = (effectCleanup s)\<lparr>selectedMicrophone := m\<rparr>
           in if m = [] then stopAudioAnalysis s1 else startAudioAnalysis s1)"

definition unmount :: "state \<Rightarrow> state" where
  "unmount s = (effectCleanup s)\<lparr>canvasRef := None\<rparr>"

text \<open>
  The states of the component: the effect's first run (no microphone selected) stops
  the analysis; then the selection changes, pending \<open>getUserMedia\<close> promises settle,
  frames run and the component is unmounted, in any order.
\<close>

inductive reachable :: "state \<Rightarrow> bool" where
  mount: "reachable (stopAudioAnalysis (initial cv))"
| select: "reachable s \<Longrightarrow> reachable (selectMicrophone m s)"
| settle: "reachable s \<Longrightarrow> reachable (settleUserMedia acq fi s)"
| frame: "reachable s \<Longrightarrow> reachable (runFrame s fi)"
| unmounted: "reachable s \<Longrightarrow> reachable (unmount s)"

text \<open>
  The frame loop is tracked when the only request the host can still hold is the one
  whose handle is in \<open>animationRef\<close>.
\<close>

definition frameLoopTracked :: "state \<Rightarrow> bool" where
  "frameLoopTracked s \<longleftrightarrow>
     pendingFrames s = [] \<or> (pendingFrames s = [animationRef s] \<and> animationRef s \<noteq> 0)"

text \<open>
  An execution with two overlapping calls of \<open>startAudioAnalysis\<close>: the user selects a
  microphone and, before its \<open>getUserMedia\<close> promise has settled, another one; then both
  promises settle, each with a stream of one track and an audio context of its own.
\<close>

definition acquired :: "nat \<Rightarrow> acquisition" where
  "acquired n =
     \<lparr>getUserMedia = Inr \<lparr>tracks = [n]\<rparr>,
      newAudioContext = Inr \<lparr>ctx_id = n, sampleRate = 44100\<rparr>,
      createAnalyser = Inr \<lparr>fftSize = 2048\<rparr>,
      createMediaStreamSource = Inr ()\<rparr>"

definition overlappingStarts :: state where
  "overlappingStarts =
     settleUserMedia (acquired 2) \<lparr>clock = 2000, drawClock = 2000, samples = [], seenHistory = []\<rparr>
       (settleUserMedia (acquired 1) \<lparr>clock = 1000, drawClock = 1000, samples = [], seenHistory = []\<rparr>
         (selectMicrophone ''micB''
           (selectMicrophone ''micA''
             (stopAudioAnalysis (initial \<lparr>width = 800, height = 400, context2d = True\<rparr>)))))"

section \<open>Facts about the history\<close>

lemma appendFrames_snoc:
  "appendFrames W prev (frames @ [f]) = appendFrame W (appendFrames W prev frames) f"
  by (simp add: appendFrames_def)

lemma appendFrame_retained:
  "d \<in> set (appendFrame W prev f) \<Longrightarrow> fst f - timestamp d \<le> W"
  by (auto simp: appendFrame_def historyUpdater_def Let_def split: if_splits)

lemma appendFrame_length: "length (appendFrame W prev f) \<le> Suc (length prev)"
proof -
  have "length (filter (\<lambda>data. fst f - timestamp data \<le> W)
          (prev @ [\<lparr>timestamp = fst f, frequencies = snd f\<rparr>])) \<le> length (prev @ [\<lparr>timestamp = fst f, frequencies = snd f\<rparr>])"
    by (rule length_filter_le)
  then show ?thesis
    by (simp add: appendFrame_def historyUpdater_def Let_def)
qed

lemma appendFrame_stamps:
  "timestamp ` set (appendFrame W prev f) \<subseteq> insert (fst f) (timestamp ` set prev)"
  by (auto simp: appendFrame_def historyUpdater_def Let_def split: if_splits)

lemma appendFrame_sorted:
  assumes "sorted (map timestamp prev)" and "\<forall>d \<in> set prev. timestamp d \<le> fst f"
  shows "sorted (map timestamp (appendFrame W prev f))"
proof -
  have "sorted (map timestamp (prev @ [\<lparr>timestamp = fst f, frequencies = snd f\<rparr>]))"
    using assms by (simp add: sorted_append)
  then show ?thesis
    unfolding appendFrame_def historyUpdater_def Let_def by (rule sorted_filter)
qed

lemma appendFrames_length: "length (appendFrames W prev frames) \<le> length prev + length frames"
proof (induction frames rule: rev_induct)
  case Nil
  show ?case by (simp add: appendFrames_def)
next
  case (snoc f frames)
  have "length (appendFrames W prev (frames @ [f])) \<le> Suc (length (appendFrames W prev frames))"
    by (simp only: appendFrames_snoc appendFrame_length)
  with snoc show ?case by simp
qed

lemma appendFrames_stamps:
  "timestamp ` set (appendFrames W prev frames) \<subseteq> timestamp ` set prev \<union> fst ` set frames"
proof (induction frames rule: rev_induct)
  case Nil
  show ?case by (simp add: appendFrames_def)
next
  case (snoc f frames)
  have "timestamp ` set (appendFrames W prev (frames @ [f]))
          \<subseteq> insert (fst f) (timestamp ` set (appendFrames W prev frames))"
    by (simp only: appendFrames_snoc appendFrame_stamps)
  also have "\<dots> \<subseteq> insert (fst f) (timestamp ` set prev \<union> fst ` set frames)"
    using snoc.IH by (rule insert_mono)
  also have "\<dots> = timestamp ` set prev \<union> fst ` set (frames @ [f])"
    by simp
  finally show ?case .
qed

lemma appendFrames_sorted:
  assumes "sorted (map fst frames)"
  shows "sorted (map timestamp (appendFrames W [] frames))"
  using assms
proof (induction frames rule: rev_induct)
  case Nil
  show ?case by (simp add: appendFrames_def)
next
  case (snoc f frames)
  from snoc.prems have srt: "sorted (map fst frames)" and le: "\<forall>t \<in> fst ` set frames. t \<le> fst f"
    by (auto simp: sorted_append)
  have "\<forall>d \<in> set (appendFrames W [] frames). timestamp d \<le> fst f"
  proof
    fix d assume "d \<in> set (appendFrames W [] frames)"
    then have "timestamp d \<in> timestamp ` set (appendFrames W [] frames)" by (rule imageI)
    with appendFrames_stamps [of W "[]" frames] have "timestamp d \<in> fst ` set frames" by auto
    with le show "timestamp d \<le> fst f" by blast
  qed
  with snoc.IH [OF srt] show ?case
    by (simp only: appendFrames_snoc appendFrame_sorted)
qed

text \<open>
  C1. Whatever the retention window \<open>W\<close>, the history before and the frames appended,
  right after the last append every retained snapshot is at most \<open>W\<close> older than the
  clock value \<open>now\<close> of that append.
\<close>

theorem history_retention:
  assumes "frames \<noteq> []"
  shows "\<forall>d \<in> set (appendFrames W prev frames). fst (last frames) - timestamp d \<le> W"
proof -
  from assms obtain fs f where fr: "frames = fs @ [f]"
    by (cases frames rule: rev_cases) auto
  show ?thesis
    unfolding fr appendFrames_snoc using appendFrame_retained [of _ W _ f] by simp
qed

theorem history_retention_witness:
  "appendFrames HISTORY_DURATION [] [(1000, [1, 2]), (301000, [3]), (301001, [4])]
     = [\<lparr>timestamp = 301000, frequencies = [3]\<rparr>, \<lparr>timestamp = 301001, frequencies = [4]\<rparr>]
   \<and> 301001 - timestamp \<lparr>timestamp = 301000, frequencies = [3::nat]\<rparr> \<le> HISTORY_DURATION"
proof -
  have ev: "appendFrames HISTORY_DURATION [] [(1000, [1, 2]), (301000, [3]), (301001, [4])]
     = [\<lparr>timestamp = 301000, frequencies = [3]\<rparr>, \<lparr>timestamp = 301001, frequencies = [4]\<rparr>]"
    by (simp add: appendFrames_def appendFrame_def historyUpdater_def HISTORY_DURATION_def)
  have "\<forall>d \<in> set (appendFrames HISTORY_DURATION [] [(1000, [1, 2]), (301000, [3]), (301001, [4])]).
          fst (last [(1000, [1, 2]), (301000, [3]), (301001, [4::nat])]) - timestamp d \<le> HISTORY_DURATION"
    by (rule history_retention) simp
  with ev show ?thesis by simp
qed

text \<open>
  C6. Starting from the empty history, appending \<open>N\<close> frames whose clock values are
  strictly increasing gives a history sorted ascending by timestamp with at most
  \<open>N\<close> entries.
\<close>

theorem history_sorted_bounded:
  assumes "sorted_wrt (<) (map fst frames)"
  shows "sorted (map timestamp (appendFrames W [] frames))
       \<and> length (appendFrames W [] frames) \<le> length frames"
proof -
  from assms have "sorted (map fst frames)"
    by (rule strict_sorted_imp_sorted)
  then have "sorted (map timestamp (appendFrames W [] frames))"
    by (rule appendFrames_sorted)
  moreover have "length (appendFrames W [] frames) \<le> length frames"
    using appendFrames_length [of W "[]" frames] by simp
  ultimately show ?thesis by simp
qed

theorem history_sorted_bounded_witness:
  "sorted_wrt (<) (map fst [(1000::int, [1, 2]), (301000, [3]), (301001, [4::nat])])
   \<and> sorted (map timestamp (appendFrames HISTORY_DURATION [] [(1000, [1, 2]), (301000, [3]), (301001, [4])]))
   \<and> length (appendFrames HISTORY_DURATION [] [(1000, [1, 2]), (301000, [3]), (301001, [4])]) = 2"
proof -
  have h: "sorted_wrt (<) (map fst [(1000::int, [1, 2]), (301000, [3]), (301001, [4::nat])])"
    by simp
  have ev: "appendFrames HISTORY_DURATION [] [(1000, [1, 2]), (301000, [3]), (301001, [4])]
     = [\<lparr>timestamp = 301000, frequencies = [3]\<rparr>, \<lparr>timestamp = 301001, frequencies = [4]\<rparr>]"
    by (simp add: appendFrames_def appendFrame_def historyUpdater_def HISTORY_DURATION_def)
  from history_sorted_bounded [OF h, of HISTORY_DURATION] h ev show ?thesis by simp
qed

section \<open>Facts about the coordinate mappings\<close>

lemma HISTORY_DURATION_ms: "HISTORY_DURATION = 300000"
  by (simp add: HISTORY_DURATION_def)

lemma frequencyToX_Num:
  assumes "0 < nyquist" "nyquist \<noteq> 20" "0 < freq"
  shows "frequencyToX freq nyquist w = Num ((log 10 freq - log 10 20) / (log 10 nyquist - log 10 20) * w)"
  using assms by (simp add: frequencyToX_def Let_def)

lemma logRange_nonzero:
  assumes "0 < nyquist" "nyquist \<noteq> 20"
  shows "log 10 nyquist - log 10 20 \<noteq> 0"
proof
  assume "log 10 nyquist - log 10 20 = 0"
  then have "10 powr (log 10 nyquist) = 10 powr (log 10 20)" by simp
  then have "nyquist = 20" using assms(1) by simp
  with assms(2) show False by simp
qed

lemma pixelToFreq_frequencyToX:
  assumes "0 < nyquist" "nyquist \<noteq> 20" "0 < freq" "w \<noteq> 0"
  shows "pixelToFreq ((log 10 freq - log 10 20) / (log 10 nyquist - log 10 20) * w) nyquist w = freq"
proof -
  have R: "log 10 nyquist - log 10 20 \<noteq> 0" using assms(1,2) by (rule logRange_nonzero)
  have "log 10 20 + ((log 10 freq - log 10 20) / (log 10 nyquist - log 10 20) * w) / w * (log 10 nyquist - log 10 20)
        = log 10 freq"
    using R assms(4) by simp
  then show ?thesis
    using assms(3) by (simp add: pixelToFreq_def Let_def)
qed

lemma frequencyToX_pixelToFreq:
  assumes "0 < nyquist" "nyquist \<noteq> 20" "w \<noteq> 0"
  shows "frequencyToX (pixelToFreq x nyquist w) nyquist w = Num x"
proof -
  have R: "log 10 nyquist - log 10 20 \<noteq> 0" using assms(1,2) by (rule logRange_nonzero)
  have pos: "0 < pixelToFreq x nyquist w" by (simp add: pixelToFreq_def Let_def)
  have lg: "log 10 (pixelToFreq x nyquist w) = log 10 20 + (x / w) * (log 10 nyquist - log 10 20)"
    by (simp add: pixelToFreq_def Let_def)
  show ?thesis
    unfolding frequencyToX_Num [OF assms(1,2) pos] lg using R assms(3) by simp
qed

lemma bin_nearest:
  assumes "0 < nyquist" "0 < bufferLength"
  shows "binIndexAt nyquist bufferLength w x = Some (round (pixelToFreq x nyquist w / (nyquist / real bufferLength)))
    \<and> \<bar>real_of_int (round (pixelToFreq x nyquist w / (nyquist / real bufferLength))) * (nyquist / real bufferLength)
         - pixelToFreq x nyquist w\<bar> \<le> (nyquist / real bufferLength) / 2"
proof -
  define fpb where "fpb = nyquist / real bufferLength"
  define f where "f = pixelToFreq x nyquist w"
  have fpb: "0 < fpb" using assms by (simp add: fpb_def)
  have "\<bar>real_of_int (round (f / fpb)) - f / fpb\<bar> \<le> 1 / 2"
    by (rule of_int_round_abs_le)
  then have "\<bar>real_of_int (round (f / fpb)) - f / fpb\<bar> * fpb \<le> 1 / 2 * fpb"
    using fpb by (simp add: mult_right_mono)
  moreover have "\<bar>real_of_int (round (f / fpb)) - f / fpb\<bar> * fpb = \<bar>real_of_int (round (f / fpb)) * fpb - f\<bar>"
  proof -
    have "\<bar>real_of_int (round (f / fpb)) - f / fpb\<bar> * fpb = \<bar>(real_of_int (round (f / fpb)) - f / fpb) * fpb\<bar>"
      using fpb by (simp add: abs_mult)
    also have "(real_of_int (round (f / fpb)) - f / fpb) * fpb = real_of_int (round (f / fpb)) * fpb - f"
      using fpb by (simp add: algebra_simps)
    finally show ?thesis .
  qed
  ultimately have "\<bar>real_of_int (round (f / fpb)) * fpb - f\<bar> \<le> fpb / 2" by simp
  moreover have "binIndexAt nyquist bufferLength w x = Some (round (f / fpb))"
    using assms by (simp add: binIndexAt_def Let_def f_def fpb_def)
  ultimately show ?thesis unfolding f_def fpb_def by simp
qed

lemma pixelToFreq_0:
  "0 < nyquist \<Longrightarrow> pixelToFreq 0 nyquist w = 20"
  by (simp add: pixelToFreq_def Let_def)

lemma bin_at_0: "binIndexAt 22050 1024 800 0 = Some 1"
proof -
  have "round ((20::real) / (22050 / 1024)) = 1"
    by (simp add: round_def)
  then show ?thesis
    by (simp add: binIndexAt_def Let_def pixelToFreq_0)
qed

lemma pow_bound: "(2205 / 2) < ((2205::real) / 2048) ^ 100"
  by (simp add: power_divide)

lemma log_bound: "8 < (log 10 (22050 / 1024) - log 10 20) / (log 10 22050 - log 10 20) * 800"
proof -
  have "log 10 (2205 / 2048 :: real) = log 10 ((22050 / 1024) / 20)"
    by simp
  also have "\<dots> = log 10 (22050 / 1024) - log 10 20"
    by (rule log_divide_pos) simp_all
  finally have a: "log 10 (22050 / 1024) - log 10 20 = log 10 (2205 / 2048 :: real)"
    by simp
  have "log 10 (2205 / 2 :: real) = log 10 (22050 / 20)"
    by simp
  also have "\<dots> = log 10 22050 - log 10 20"
    by (rule log_divide_pos) simp_all
  finally have b: "log 10 22050 - log 10 20 = log 10 (2205 / 2 :: real)"
    by simp
  have bpos: "0 < log 10 (2205 / 2 :: real)"
    by simp
  have "log 10 (2205 / 2) < log 10 (((2205::real) / 2048) ^ 100)"
    using pow_bound by (subst log_less_cancel_iff) simp_all
  also have "\<dots> = 100 * log 10 (2205 / 2048)"
    by (subst log_nat_power) simp_all
  finally have "8 * log 10 (2205 / 2) < 800 * log 10 (2205 / 2048 :: real)"
    by simp
  then have "8 < log 10 (2205 / 2048 :: real) / log 10 (2205 / 2) * 800"
    using bpos by (simp add: field_simps)
  then show ?thesis
    by (simp only: a b)
qed

text \<open>
  C7 (as amended). For a Nyquist frequency above 20 Hz and a positive width, every
  frequency in \<open>[20, Nyquist]\<close> has a pixel position in \<open>[0, canvasWidth]\<close>; the
  pixel-to-frequency step of the bar renderer takes that position back to the frequency
  exactly, and forward again to the same position. The bin the renderer then picks is
  the nearest one: its frequency \<open>binIndex * frequencyPerBin\<close> is within half a bin
  width of the frequency.
\<close>

theorem frequency_roundtrip:
  assumes "20 < nyquist" "20 \<le> freq" "freq \<le> nyquist" "0 < canvasWidth" "0 < bufferLength"
  shows "\<exists>x. frequencyToX freq nyquist canvasWidth = Num x \<and> 0 \<le> x \<and> x \<le> canvasWidth
            \<and> pixelToFreq x nyquist canvasWidth = freq
            \<and> frequencyToX (pixelToFreq x nyquist canvasWidth) nyquist canvasWidth = Num x
            \<and> (\<exists>b. binIndexAt nyquist bufferLength canvasWidth x = Some b
                  \<and> \<bar>real_of_int b * (nyquist / real bufferLength) - freq\<bar>
                       \<le> (nyquist / real bufferLength) / 2)"
proof -
  define x where "x = (log 10 freq - log 10 20) / (log 10 nyquist - log 10 20) * canvasWidth"
  have ny: "0 < nyquist" "nyquist \<noteq> 20" and fr: "0 < freq" and w: "canvasWidth \<noteq> 0"
    using assms by simp_all
  have fx: "frequencyToX freq nyquist canvasWidth = Num x"
    unfolding x_def using ny fr by (rule frequencyToX_Num)
  have bk: "pixelToFreq x nyquist canvasWidth = freq"
    unfolding x_def using ny fr w by (rule pixelToFreq_frequencyToX)
  have R: "0 < log 10 nyquist - log 10 20"
    using assms(1) by simp
  have lo: "0 \<le> log 10 freq - log 10 20"
    using assms(2) by simp
  have hi: "log 10 freq - log 10 20 \<le> log 10 nyquist - log 10 20"
    using assms(2,3) by simp
  have "0 \<le> (log 10 freq - log 10 20) / (log 10 nyquist - log 10 20)"
    using lo R by simp
  then have x0: "0 \<le> x"
    unfolding x_def using assms(4) by (intro mult_nonneg_nonneg) simp_all
  have "(log 10 freq - log 10 20) / (log 10 nyquist - log 10 20) \<le> 1"
    using hi R by simp
  then have "(log 10 freq - log 10 20) / (log 10 nyquist - log 10 20) * canvasWidth \<le> 1 * canvasWidth"
    using assms(4) by (intro mult_right_mono) simp_all
  then have x1: "x \<le> canvasWidth"
    by (simp add: x_def)
  have again: "frequencyToX (pixelToFreq x nyquist canvasWidth) nyquist canvasWidth = Num x"
    using ny w by (rule frequencyToX_pixelToFreq)
  from bin_nearest [OF ny(1) assms(5), of canvasWidth x]
  have "\<exists>b. binIndexAt nyquist bufferLength canvasWidth x = Some b
            \<and> \<bar>real_of_int b * (nyquist / real bufferLength) - freq\<bar> \<le> (nyquist / real bufferLength) / 2"
    unfolding bk by blast
  with fx x0 x1 bk again show ?thesis by blast
qed

theorem frequency_roundtrip_witness:
  "(20::real) < 22050 \<and> (20::real) \<le> 220 \<and> (220::real) \<le> 22050 \<and> (0::real) < 800 \<and> (0::nat) < 1024
   \<and> (\<exists>x. frequencyToX 220 22050 800 = Num x \<and> 0 \<le> x \<and> x \<le> 800
            \<and> pixelToFreq x 22050 800 = 220
            \<and> frequencyToX (pixelToFreq x 22050 800) 22050 800 = Num x
            \<and> (\<exists>b. binIndexAt 22050 1024 800 x = Some b
                  \<and> \<bar>real_of_int b * (22050 / real (1024::nat)) - 220\<bar>
                       \<le> (22050 / real (1024::nat)) / 2))"
  using frequency_roundtrip [of 22050 220 800 1024] by simp

text \<open>
  Through the bin the round trip is not within one pixel. At 44100 Hz with 1024 bins
  and a width of 800, the frequency 20 Hz is at pixel 0; pixel 0 falls into bin 1, whose
  frequency \<open>22050 / 1024\<close> is drawn more than 8 pixels further right.
\<close>

theorem bin_roundtrip_counterexample:
  "frequencyToX 20 22050 800 = Num 0
   \<and> binIndexAt 22050 1024 800 0 = Some 1
   \<and> frequencyToX (22050 / 1024) 22050 800
       = Num ((log 10 (22050 / 1024) - log 10 20) / (log 10 22050 - log 10 20) * 800)
   \<and> 8 < (log 10 (22050 / 1024) - log 10 20) / (log 10 22050 - log 10 20) * 800"
proof -
  have "frequencyToX 20 22050 800 = Num 0"
    by (simp add: frequencyToX_def)
  moreover have "frequencyToX (22050 / 1024) 22050 800
       = Num ((log 10 (22050 / 1024) - log 10 20) / (log 10 22050 - log 10 20) * 800)"
    by (rule frequencyToX_Num) simp_all
  ultimately show ?thesis using bin_at_0 log_bound by simp
qed

section \<open>Facts about the renderer\<close>

lemma bar0:
  "drawBar \<lparr>width = 800, height = 400, context2d = True\<rparr> 22050 (replicate 1024 255) 1024 0
     = [FillRect (Num 0) (Num 0) (Num 2) (Num 400)]"
  using bin_at_0 by (simp add: drawBar_def typed_array_get_def)

lemma first_bar_drawn:
  "FillRect (Num 0) (Num 0) (Num 2) (Num 400)
     \<in> set (drawLogSpectrum (Some \<lparr>ctx_id = 1, sampleRate = 44100\<rparr>)
              \<lparr>width = 800, height = 400, context2d = True\<rparr> (replicate 1024 255) 1024)"
proof -
  have "drawLogSpectrum_loop \<lparr>width = 800, height = 400, context2d = True\<rparr> 22050 (replicate 1024 255) 1024 0
      = drawBar \<lparr>width = 800, height = 400, context2d = True\<rparr> 22050 (replicate 1024 255) 1024 0
        @ drawLogSpectrum_loop \<lparr>width = 800, height = 400, context2d = True\<rparr> 22050 (replicate 1024 255) 1024 (0 + 2)"
    by (subst drawLogSpectrum_loop.simps) simp
  then show ?thesis
    by (simp add: drawLogSpectrum_def bar0)
qed

text \<open>
  C5. The reference line stays in the top two thirds and the spectrogram cells in the
  bottom third (the three lemmas after this theorem), but the bars do not: with every
  bin at 255, on the 800 by 400 canvas at 44100 Hz, the bar of column 0 is the rectangle
  from \<open>y = 0\<close> down to \<open>y = 400\<close>, below two thirds of the height.
\<close>

theorem bars_reach_bottom:
  "FillRect (Num 0) (Num 0) (Num 2) (Num 400)
     \<in> set (drawLogSpectrum (Some \<lparr>ctx_id = 1, sampleRate = 44100\<rparr>)
              \<lparr>width = CANVAS_WIDTH, height = CANVAS_HEIGHT, context2d = True\<rparr> (replicate 1024 255) 1024)
   \<and> real CANVAS_HEIGHT * 2 / 3 < 0 + 400"
  using first_bar_drawn by (simp add: CANVAS_WIDTH_def CANVAS_HEIGHT_def)

lemma drawCell_band:
  assumes "FillRect x (Num y) w (Num h) \<in> set (drawCell x' spectrogramY freqStep (i, a))"
  shows "y = spectrogramY + real i * freqStep \<and> h = freqStep"
  using assms by (simp add: drawCell_def Let_def)

lemma drawEntry_band:
  assumes "FillRect x (Num y) w (Num h) \<in> set (drawEntry cv now d)"
  shows "real (height cv) - real (height cv) / 3 \<le> y \<and> y + h \<le> real (height cv)"
proof -
  define n where "n = length (frequencies d)"
  define H where "H = real (height cv)"
  from assms obtain i a where ia: "(i, a) \<in> set (enumerate 0 (frequencies d))"
    and c: "FillRect x (Num y) w (Num h)
        \<in> set (drawCell (real (width cv)
                - real_of_int (now - timestamp d) * (real (width cv) / real_of_int HISTORY_DURATION))
             (H - H / 3) (H / 3 / real n) (i, a))"
    by (auto simp: drawEntry_def Let_def n_def H_def split: if_splits)
  from ia have i: "i < n" by (simp add: in_set_enumerate_eq n_def)
  from drawCell_band [OF c] have y: "y = (H - H / 3) + real i * (H / 3 / real n)" and h: "h = H / 3 / real n"
    by simp_all
  define q where "q = H / 3 / real n"
  have H0: "0 \<le> H" by (simp add: H_def)
  have n0: "0 < real n" using i by simp
  have q0: "0 \<le> q" using H0 n0 by (simp add: q_def)
  have nq: "real n * q = H / 3" using n0 by (simp add: q_def)
  have "0 \<le> real i * q" using q0 by simp
  have yq: "y = (H - H / 3) + real i * q" and hq: "h = q"
    by (simp_all add: y h q_def)
  from \<open>0 \<le> real i * q\<close> have lo: "H - H / 3 \<le> y" by (simp add: yq)
  have "real i + 1 \<le> real n" using i by simp
  then have "(real i + 1) * q \<le> real n * q"
    using q0 by (rule mult_right_mono)
  then have "real i * q + q \<le> H / 3"
    by (simp add: nq distrib_right)
  then have "y + h \<le> H" unfolding yq hq by linarith
  with lo show ?thesis by (simp add: H_def)
qed

lemma spectrogram_in_bottom_third:
  assumes "FillRect x (Num y) w (Num h) \<in> set (drawSpectrogram cv now hist)"
  shows "real (height cv) * 2 / 3 \<le> y \<and> y + h \<le> real (height cv)"
proof -
  from assms obtain d where "FillRect x (Num y) w (Num h) \<in> set (drawEntry cv now d)"
    by (auto simp: drawSpectrogram_def Let_def split: if_splits)
  from drawEntry_band [OF this] show ?thesis by (simp add: field_simps)
qed

lemma reference_line_in_top_two_thirds:
  assumes "LineTo x (Num y) \<in> set (draw220HzLine ac cv bufferLength)
           \<or> MoveTo x (Num y) \<in> set (draw220HzLine ac cv bufferLength)"
  shows "0 \<le> y \<and> y \<le> real (height cv) * 2 / 3"
  using assms by (cases ac) (auto simp: draw220HzLine_def Let_def)

lemma getByteFrequencyData_length: "length (getByteFrequencyData fi bufferLength) = bufferLength"
  by (simp add: getByteFrequencyData_def)

lemma drawBar_in_bounds:
  assumes "length dataArray = bufferLength" "c \<in> set (drawBar cv nyquist dataArray bufferLength pixelX)"
  shows "\<exists>binIndex. 0 \<le> binIndex \<and> nat binIndex < length dataArray
           \<and> typed_array_get dataArray binIndex = Some (dataArray ! nat binIndex)
           \<and> c = FillRect (Num (real pixelX))
                    (Num (real (height cv) - real (dataArray ! nat binIndex) / 255 * real (height cv)))
                    (Num 2) (Num (real (dataArray ! nat binIndex) / 255 * real (height cv)))"
proof (cases "binIndexAt nyquist bufferLength (real (width cv)) (real pixelX)")
  case None
  with assms(2) show ?thesis by (simp add: drawBar_def)
next
  case (Some b)
  show ?thesis
  proof (cases "b \<ge> 0 \<and> b < int bufferLength")
    case False
    with Some assms(2) show ?thesis by (simp add: drawBar_def)
  next
    case True
    with assms(1) have rng: "0 \<le> b" "nat b < length dataArray" by auto
    then have get: "typed_array_get dataArray b = Some (dataArray ! nat b)"
      by (simp add: typed_array_get_def)
    from assms(2) Some True get
    have "c = FillRect (Num (real pixelX))
                    (Num (real (height cv) - real (dataArray ! nat b) / 255 * real (height cv)))
                    (Num 2) (Num (real (dataArray ! nat b) / 255 * real (height cv)))"
      by (simp add: drawBar_def Let_def)
    with rng get show ?thesis by blast
  qed
qed

lemma loop_in_bounds:
  assumes "length dataArray = bufferLength"
  shows "c \<in> set (drawLogSpectrum_loop cv nyquist dataArray bufferLength p) \<Longrightarrow>
         \<exists>pixelX binIndex. 0 \<le> binIndex \<and> nat binIndex < length dataArray
           \<and> typed_array_get dataArray binIndex = Some (dataArray ! nat binIndex)
           \<and> c = FillRect (Num (real pixelX))
                    (Num (real (height cv) - real (dataArray ! nat binIndex) / 255 * real (height cv)))
                    (Num 2) (Num (real (dataArray ! nat binIndex) / 255 * real (height cv)))"
  using assms
proof (induction cv nyquist dataArray bufferLength p rule: drawLogSpectrum_loop.induct)
  case (1 cv nyquist dataArray bufferLength pixelX)
  show ?case
  proof (cases "pixelX < width cv")
    case False
    with "1.prems"(1) show ?thesis by (simp add: drawLogSpectrum_loop.simps)
  next
    case True
    from "1.prems"(1) have "c \<in> set (drawBar cv nyquist dataArray bufferLength pixelX
        @ drawLogSpectrum_loop cv nyquist dataArray bufferLength (pixelX + 2))"
      by (subst (asm) drawLogSpectrum_loop.simps) (simp add: True)
    then have "c \<in> set (drawBar cv nyquist dataArray bufferLength pixelX)
        \<or> c \<in> set (drawLogSpectrum_loop cv nyquist dataArray bufferLength (pixelX + 2))"
      by simp
    then show ?thesis
    proof
      assume "c \<in> set (drawBar cv nyquist dataArray bufferLength pixelX)"
      from drawBar_in_bounds [OF "1.prems"(2) this] show ?thesis by blast
    next
      assume "c \<in> set (drawLogSpectrum_loop cv nyquist dataArray bufferLength (pixelX + 2))"
      from "1.IH" [OF True this "1.prems"(2)] show ?thesis .
    qed
  qed
qed

text \<open>
  C10. When the array has \<open>bufferLength\<close> elements, as the one \<open>animate\<close> allocates has,
  every call \<open>drawLogSpectrum\<close> makes is the fill style or a bar whose amplitude was read
  at an index \<open>0 \<le> binIndex < bufferLength\<close> inside the array, for every sample rate,
  canvas and column; no bar comes from a read outside the array.
\<close>

theorem bar_reads_in_bounds:
  assumes "length dataArray = bufferLength"
  shows "\<forall>c \<in> set (drawLogSpectrum ac cv dataArray bufferLength).
           c = FillStyle ''#00ff00''
           \<or> (\<exists>pixelX binIndex. 0 \<le> binIndex \<and> binIndex < int bufferLength
                 \<and> nat binIndex < length dataArray
                 \<and> typed_array_get dataArray binIndex = Some (dataArray ! nat binIndex)
                 \<and> c = FillRect (Num (real pixelX))
                    (Num (real (height cv) - real (dataArray ! nat binIndex) / 255 * real (height cv)))
                    (Num 2) (Num (real (dataArray ! nat binIndex) / 255 * real (height cv))))"
proof
  fix c assume c: "c \<in> set (drawLogSpectrum ac cv dataArray bufferLength)"
  show "c = FillStyle ''#00ff00''
           \<or> (\<exists>pixelX binIndex. 0 \<le> binIndex \<and> binIndex < int bufferLength
                 \<and> nat binIndex < length dataArray
                 \<and> typed_array_get dataArray binIndex = Some (dataArray ! nat binIndex)
                 \<and> c = FillRect (Num (real pixelX))
                    (Num (real (height cv) - real (dataArray ! nat binIndex) / 255 * real (height cv)))
                    (Num 2) (Num (real (dataArray ! nat binIndex) / 255 * real (height cv))))"
  proof (cases ac)
    case None
    with c show ?thesis by (simp add: drawLogSpectrum_def)
  next
    case (Some a)
    with c have "c = FillStyle ''#00ff00''
        \<or> c \<in> set (drawLogSpectrum_loop cv (sampleRate a / 2) dataArray bufferLength 0)"
      by (auto simp: drawLogSpectrum_def Let_def)
    then show ?thesis
    proof
      assume "c = FillStyle ''#00ff00''" then show ?thesis by simp
    next
      assume "c \<in> set (drawLogSpectrum_loop cv (sampleRate a / 2) dataArray bufferLength 0)"
      from loop_in_bounds [OF assms this] obtain pixelX binIndex where
        b: "0 \<le> binIndex" "nat binIndex < length dataArray"
           "typed_array_get dataArray binIndex = Some (dataArray ! nat binIndex)"
           "c = FillRect (Num (real pixelX))
                    (Num (real (height cv) - real (dataArray ! nat binIndex) / 255 * real (height cv)))
                    (Num 2) (Num (real (dataArray ! nat binIndex) / 255 * real (height cv)))"
        by blast
      from b(1,2) assms have "binIndex < int bufferLength" by auto
      with b show ?thesis by blast
    qed
  qed
qed

theorem bar_reads_in_bounds_witness:
  "length [7::nat] = 1
   \<and> FillRect (Num 0) NonFinite (Num 2) NonFinite
        \<notin> set (drawLogSpectrum (Some \<lparr>ctx_id = 1, sampleRate = 44100\<rparr>)
                 \<lparr>width = 800, height = 400, context2d = True\<rparr> [7] 1)"
proof -
  have h: "length [7::nat] = 1" by simp
  from bar_reads_in_bounds [OF h, of "Some \<lparr>ctx_id = 1, sampleRate = 44100\<rparr>"
      "\<lparr>width = 800, height = 400, context2d = True\<rparr>"]
  show ?thesis by auto
qed

text \<open>
  The length of the array matters: with an empty array and \<open>bufferLength = 1024\<close> the
  guard passes at column 0 and the read is outside the array.
\<close>

lemma out_of_bounds_possible:
  "FillRect (Num 0) NonFinite (Num 2) NonFinite
     \<in> set (drawLogSpectrum (Some \<lparr>ctx_id = 1, sampleRate = 44100\<rparr>)
              \<lparr>width = 800, height = 400, context2d = True\<rparr> [] 1024)"
proof -
  have "drawBar \<lparr>width = 800, height = 400, context2d = True\<rparr> 22050 [] 1024 0
     = [FillRect (Num 0) NonFinite (Num 2) NonFinite]"
    using bin_at_0 by (simp add: drawBar_def typed_array_get_def)
  moreover have "drawLogSpectrum_loop \<lparr>width = 800, height = 400, context2d = True\<rparr> 22050 [] 1024 0
      = drawBar \<lparr>width = 800, height = 400, context2d = True\<rparr> 22050 [] 1024 0
        @ drawLogSpectrum_loop \<lparr>width = 800, height = 400, context2d = True\<rparr> 22050 [] 1024 (0 + 2)"
    by (subst drawLogSpectrum_loop.simps) simp
  ultimately show ?thesis
    by (simp add: drawLogSpectrum_def)
qed

lemma loop_covers_columns:
  "p + 2 * k < width cv \<Longrightarrow>
     set (drawBar cv nyquist dataArray bufferLength (p + 2 * k))
       \<subseteq> set (drawLogSpectrum_loop cv nyquist dataArray bufferLength p)"
proof (induction k arbitrary: p)
  case 0
  then have "p < width cv" by simp
  then show ?case
    by (subst drawLogSpectrum_loop.simps) simp
next
  case (Suc k)
  then have p: "p < width cv" and "(p + 2) + 2 * k < width cv" by simp_all
  from Suc.IH [OF this(2)]
  have "set (drawBar cv nyquist dataArray bufferLength (p + 2 * Suc k))
      \<subseteq> set (drawLogSpectrum_loop cv nyquist dataArray bufferLength (p + 2))"
    by (simp add: add.assoc)
  also have "\<dots> \<subseteq> set (drawLogSpectrum_loop cv nyquist dataArray bufferLength p)"
    using p by (subst (2) drawLogSpectrum_loop.simps) auto
  finally show ?case .
qed

lemma drawBar_in_range:
  assumes "binIndexAt nyquist bufferLength (real (width cv)) (real pixelX) = Some b"
    "0 \<le> b" "b < int bufferLength" "length dataArray = bufferLength"
  shows "drawBar cv nyquist dataArray bufferLength pixelX
       = [FillRect (Num (real pixelX))
            (Num (real (height cv) - real (dataArray ! nat b) / 255 * real (height cv)))
            (Num 2) (Num (real (dataArray ! nat b) / 255 * real (height cv)))]"
proof -
  from assms(2-4) have "nat b < length dataArray" by auto
  with assms(1-3) show ?thesis
    by (simp add: drawBar_def typed_array_get_def Let_def)
qed

text \<open>
  With a history that is not empty the spectrogram does draw cells and its two labels.
\<close>

lemma spectrogram_cells_drawn:
  "drawSpectrogram \<lparr>width = 800, height = 400, context2d = True\<rparr> 1000
       [\<lparr>timestamp = 1000, frequencies = [255]\<rparr>]
     = [FillStyleHsl 0 50, FillRect (Num 800) (Num (400 - 400 / 3)) (Num 2) (Num (400 / 3)),
        FillStyle ''#fff'', Font ''12px Arial'',
        FillText ''Now'' (Num 770) (Num (400 - 400 / 3 - 5)),
        FillText ''5 min ago'' (Num 10) (Num (400 - 400 / 3 - 5))]"
  by (simp add: drawSpectrogram_def drawEntry_def drawCell_def HISTORY_DURATION_def Let_def)

section \<open>Facts about the capture lifecycle\<close>

lemma stop_fields:
  "pendingFrames (stopAudioAnalysis s) =
     (if animationRef s \<noteq> 0 then removeAll (animationRef s) (pendingFrames s) else pendingFrames s)"
  "nextFrameId (stopAudioAnalysis s) = nextFrameId s"
  "animationRef (stopAudioAnalysis s) = animationRef s"
  "selectedMicrophone (stopAudioAnalysis s) = selectedMicrophone s"
  "streamRef (stopAudioAnalysis s) = None"
  "audioContextRef (stopAudioAnalysis s) = None"
  "analyserRef (stopAudioAnalysis s) = None"
  "isActive (stopAudioAnalysis s) = False"
  "canvasRef (stopAudioAnalysis s) = canvasRef s"
  "spectrumHistory (stopAudioAnalysis s) = spectrumHistory s"
  "drawn (stopAudioAnalysis s) = drawn s"
  "consoleErrors (stopAudioAnalysis s) = consoleErrors s"
  "awaitingUserMedia (stopAudioAnalysis s) = awaitingUserMedia s"
  by (simp_all add: stopAudioAnalysis_def Let_def split: option.splits)

lemma stop_released:
  "stoppedTracks (stopAudioAnalysis s) =
     stoppedTracks s \<union> (case streamRef s of None \<Rightarrow> {} | Some stream \<Rightarrow> set (tracks stream))"
  "closedContexts (stopAudioAnalysis s) =
     closedContexts s \<union> (case audioContextRef s of None \<Rightarrow> {} | Some c \<Rightarrow> {ctx_id c})"
  by (simp_all add: stopAudioAnalysis_def Let_def split: option.splits)

lemma animate_skip:
  assumes "analyserRef s = None \<or> canvasRef s = None \<or> (\<exists>cv. canvasRef s = Some cv \<and> \<not> context2d cv)"
  shows "animate fi s = s"
  using assms by (auto simp: animate_def split: option.splits)

lemma animate_same:
  "selectedMicrophone (animate fi s) = selectedMicrophone s"
  "streamRef (animate fi s) = streamRef s"
  "audioContextRef (animate fi s) = audioContextRef s"
  "analyserRef (animate fi s) = analyserRef s"
  "isActive (animate fi s) = isActive s"
  "stoppedTracks (animate fi s) = stoppedTracks s"
  "closedContexts (animate fi s) = closedContexts s"
  "consoleErrors (animate fi s) = consoleErrors s"
  "canvasRef (animate fi s) = canvasRef s"
  "awaitingUserMedia (animate fi s) = awaitingUserMedia s"
  by (simp_all add: animate_def Let_def split: option.splits)

lemma animate_ready:
  assumes "analyserRef s = Some analyser" "canvasRef s = Some cv" "context2d cv"
  shows "spectrumHistory (animate fi s)
       = appendFrame HISTORY_DURATION (spectrumHistory s)
           (clock fi, getByteFrequencyData fi (frequencyBinCount analyser))"
    and "drawn (animate fi s)
       = drawn s @ [drawSpectrum (audioContextRef s) cv
                      (getByteFrequencyData fi (frequencyBinCount analyser))
                      (frequencyBinCount analyser) (drawClock fi) (seenHistory fi)]"
    and "pendingFrames (animate fi s) = pendingFrames s @ [nextFrameId s]"
    and "animationRef (animate fi s) = nextFrameId s"
    and "nextFrameId (animate fi s) = nextFrameId s + 1"
  using assms by (simp_all add: animate_def appendFrame_def Let_def)

lemma stop_no_pending: "frameLoopTracked s \<Longrightarrow> pendingFrames (stopAudioAnalysis s) = []"
  by (auto simp: frameLoopTracked_def stop_fields)

lemma runFrames_idle: "pendingFrames s = [] \<Longrightarrow> runFrames s fis = s"
  by (induction fis) (simp_all add: runFrames_def runFrame_def)

lemma tracked_runFrame: "frameLoopTracked s \<Longrightarrow> 0 < nextFrameId s \<Longrightarrow> frameLoopTracked (runFrame s fi)"
  by (auto simp: frameLoopTracked_def runFrame_def animate_def Let_def split: option.splits list.splits)

text \<open>
  While a single analysis runs, the frame loop is tracked, and \<open>stopAudioAnalysis\<close> then
  releases everything the refs hold and leaves no request pending.
\<close>

lemma single_session_stop:
  assumes "frameLoopTracked s"
  shows "pendingFrames (stopAudioAnalysis s) = []
       \<and> runFrames (stopAudioAnalysis s) fis = stopAudioAnalysis s
       \<and> streamRef (stopAudioAnalysis s) = None
       \<and> audioContextRef (stopAudioAnalysis s) = None
       \<and> analyserRef (stopAudioAnalysis s) = None
       \<and> \<not> isActive (stopAudioAnalysis s)
       \<and> (case streamRef s of None \<Rightarrow> {} | Some stream \<Rightarrow> set (tracks stream))
            \<subseteq> stoppedTracks (stopAudioAnalysis s)
       \<and> (case audioContextRef s of None \<Rightarrow> {} | Some c \<Rightarrow> {ctx_id c})
            \<subseteq> closedContexts (stopAudioAnalysis s)"
proof -
  have p: "pendingFrames (stopAudioAnalysis s) = []"
    using assms by (rule stop_no_pending)
  then have "runFrames (stopAudioAnalysis s) fis = stopAudioAnalysis s"
    by (rule runFrames_idle)
  with p show ?thesis
    by (simp add: stop_fields stop_released)
qed

lemmas lifecycle_defs =
  selectMicrophone_def effectCleanup_def stopAudioAnalysis_def initial_def unmount_def
  startAudioAnalysis_def settleUserMedia_def startAudioAnalysis_resumed_def catchError_def
  animate_def runFrame_def Let_def

lemma race_fields:
  "pendingFrames overlappingStarts = [1, 2]"
  "animationRef overlappingStarts = 2"
  "isActive overlappingStarts"
  "streamRef overlappingStarts = Some \<lparr>tracks = [2]\<rparr>"
  "stoppedTracks overlappingStarts = {}"
  "closedContexts overlappingStarts = {}"
  "selectedMicrophone overlappingStarts = ''micB''"
  "analyserRef overlappingStarts = Some \<lparr>fftSize = 2048\<rparr>"
  "audioContextRef overlappingStarts = Some \<lparr>ctx_id = 2, sampleRate = 44100\<rparr>"
  by (simp_all add: overlappingStarts_def acquired_def lifecycle_defs FFT_SIZE_def)

text \<open>
  C9. In a frame whose closure holds an empty history, with analyser, canvas and audio
  context present, the frame is drawn and the next one requested. The calls of the
  frame are exactly: the background fill, the fill style of the bars, bars only (each a
  finite rectangle two pixels wide, and one for every even column whose bin index passes
  the guard), then the 220 Hz reference line from \<open>y = 0\<close> to two thirds of the height
  with its label. No call of the spectrogram (cell, hue or time label) is among them.
\<close>

theorem empty_history_render:
  assumes "analyserRef s = Some analyser" "canvasRef s = Some cv" "context2d cv"
    "audioContextRef s = Some ac" "seenHistory fi = []"
  shows "\<exists>bars.
      drawn (animate fi s) = drawn s @
        [[FillStyle ''#000'',
          FillRect (Num 0) (Num 0) (Num (real (width cv))) (Num (real (height cv))),
          FillStyle ''#00ff00'']
         @ bars @
         [StrokeStyle ''#ffffff'', LineWidth 2, BeginPath,
          MoveTo (frequencyToX 220 (sampleRate ac / 2) (real (width cv))) (Num 0),
          LineTo (frequencyToX 220 (sampleRate ac / 2) (real (width cv)))
                 (Num (real (height cv) * 2 / 3)),
          Stroke, FillStyle ''#ffffff'', Font ''12px Arial'',
          FillText ''220Hz'' (js_add (frequencyToX 220 (sampleRate ac / 2) (real (width cv))) 5)
                   (Num 15)]]
      \<and> (\<forall>c \<in> set bars. \<exists>x y h. c = FillRect (Num x) (Num y) (Num 2) (Num h))
      \<and> (\<forall>k b. 2 * k < width cv
              \<and> binIndexAt (sampleRate ac / 2) (frequencyBinCount analyser)
                   (real (width cv)) (real (2 * k)) = Some b
              \<and> 0 \<le> b \<and> b < int (frequencyBinCount analyser) \<longrightarrow>
            FillRect (Num (real (2 * k)))
              (Num (real (height cv)
                    - real (getByteFrequencyData fi (frequencyBinCount analyser) ! nat b) / 255
                      * real (height cv)))
              (Num 2)
              (Num (real (getByteFrequencyData fi (frequencyBinCount analyser) ! nat b) / 255
                    * real (height cv)))
            \<in> set bars)
      \<and> pendingFrames (animate fi s) = pendingFrames s @ [nextFrameId s]"
proof -
  define n where "n = frequencyBinCount analyser"
  define dataArray where "dataArray = getByteFrequencyData fi n"
  define bars where "bars = drawLogSpectrum_loop cv (sampleRate ac / 2) dataArray n 0"
  have len: "length dataArray = n"
    by (simp add: dataArray_def getByteFrequencyData_def)
  have d: "drawn (animate fi s) = drawn s @
        [[FillStyle ''#000'',
          FillRect (Num 0) (Num 0) (Num (real (width cv))) (Num (real (height cv))),
          FillStyle ''#00ff00'']
         @ bars @
         [StrokeStyle ''#ffffff'', LineWidth 2, BeginPath,
          MoveTo (frequencyToX 220 (sampleRate ac / 2) (real (width cv))) (Num 0),
          LineTo (frequencyToX 220 (sampleRate ac / 2) (real (width cv)))
                 (Num (real (height cv) * 2 / 3)),
          Stroke, FillStyle ''#ffffff'', Font ''12px Arial'',
          FillText ''220Hz'' (js_add (frequencyToX 220 (sampleRate ac / 2) (real (width cv))) 5)
                   (Num 15)]]"
    unfolding animate_ready(2) [OF assms(1-3)]
    by (simp add: assms(4,5) drawSpectrum_def drawLogSpectrum_def draw220HzLine_def
        drawSpectrogram_def Let_def bars_def dataArray_def n_def)
  have b1: "\<forall>c \<in> set bars. \<exists>x y h. c = FillRect (Num x) (Num y) (Num 2) (Num h)"
  proof
    fix c assume "c \<in> set bars"
    then have "c \<in> set (drawLogSpectrum_loop cv (sampleRate ac / 2) dataArray n 0)"
      by (simp add: bars_def)
    from loop_in_bounds [OF len this] show "\<exists>x y h. c = FillRect (Num x) (Num y) (Num 2) (Num h)"
      by blast
  qed
  have b2: "\<forall>k b. 2 * k < width cv
              \<and> binIndexAt (sampleRate ac / 2) n (real (width cv)) (real (2 * k)) = Some b
              \<and> 0 \<le> b \<and> b < int n \<longrightarrow>
            FillRect (Num (real (2 * k)))
              (Num (real (height cv) - real (dataArray ! nat b) / 255 * real (height cv)))
              (Num 2) (Num (real (dataArray ! nat b) / 255 * real (height cv)))
            \<in> set bars"
  proof (intro allI impI)
    fix k b
    assume a: "2 * k < width cv
              \<and> binIndexAt (sampleRate ac / 2) n (real (width cv)) (real (2 * k)) = Some b
              \<and> 0 \<le> b \<and> b < int n"
    then have "drawBar cv (sampleRate ac / 2) dataArray n (2 * k)
        = [FillRect (Num (real (2 * k)))
            (Num (real (height cv) - real (dataArray ! nat b) / 255 * real (height cv)))
            (Num 2) (Num (real (dataArray ! nat b) / 255 * real (height cv)))]"
      using len by (intro drawBar_in_range) simp_all
    moreover from a have "set (drawBar cv (sampleRate ac / 2) dataArray n (0 + 2 * k))
        \<subseteq> set (drawLogSpectrum_loop cv (sampleRate ac / 2) dataArray n 0)"
      by (intro loop_covers_columns) simp
    ultimately show "FillRect (Num (real (2 * k)))
              (Num (real (height cv) - real (dataArray ! nat b) / 255 * real (height cv)))
              (Num 2) (Num (real (dataArray ! nat b) / 255 * real (height cv)))
            \<in> set bars"
      by (simp add: bars_def)
  qed
  have p: "pendingFrames (animate fi s) = pendingFrames s @ [nextFrameId s]"
    by (rule animate_ready(3) [OF assms(1-3)])
  from d b1 b2 p show ?thesis
    unfolding dataArray_def n_def by blast
qed

theorem empty_history_render_witness:
  "analyserRef ((initial \<lparr>width = 800, height = 400, context2d = True\<rparr>)
       \<lparr>audioContextRef := Some \<lparr>ctx_id = 1, sampleRate = 44100\<rparr>,
        analyserRef := Some \<lparr>fftSize = 2048\<rparr>\<rparr>) = Some \<lparr>fftSize = 2048\<rparr>
   \<and> canvasRef ((initial \<lparr>width = 800, height = 400, context2d = True\<rparr>)
       \<lparr>audioContextRef := Some \<lparr>ctx_id = 1, sampleRate = 44100\<rparr>,
        analyserRef := Some \<lparr>fftSize = 2048\<rparr>\<rparr>) = Some \<lparr>width = 800, height = 400, context2d = True\<rparr>
   \<and> context2d \<lparr>width = 800, height = 400, context2d = True\<rparr>
   \<and> audioContextRef ((initial \<lparr>width = 800, height = 400, context2d = True\<rparr>)
       \<lparr>audioContextRef := Some \<lparr>ctx_id = 1, sampleRate = 44100\<rparr>,
        analyserRef := Some \<lparr>fftSize = 2048\<rparr>\<rparr>) = Some \<lparr>ctx_id = 1, sampleRate = 44100\<rparr>
   \<and> seenHistory \<lparr>clock = 1000, drawClock = 1000, samples = [10, 255], seenHistory = []\<rparr> = []
   \<and> pendingFrames (animate \<lparr>clock = 1000, drawClock = 1000, samples = [10, 255], seenHistory = []\<rparr>
       ((initial \<lparr>width = 800, height = 400, context2d = True\<rparr>)
         \<lparr>audioContextRef := Some \<lparr>ctx_id = 1, sampleRate = 44100\<rparr>,
          analyserRef := Some \<lparr>fftSize = 2048\<rparr>\<rparr>)) = [1]
   \<and> FillRect (Num 0) (Num 0) (Num 2) (Num 400)
       \<in> set (last (drawn (animate \<lparr>clock = 1000, drawClock = 1000, samples = [10, 255], seenHistory = []\<rparr>
          ((initial \<lparr>width = 800, height = 400, context2d = True\<rparr>)
            \<lparr>audioContextRef := Some \<lparr>ctx_id = 1, sampleRate = 44100\<rparr>,
             analyserRef := Some \<lparr>fftSize = 2048\<rparr>\<rparr>))))
   \<and> LineTo (frequencyToX 220 22050 800) (Num (800 / 3))
       \<in> set (last (drawn (animate \<lparr>clock = 1000, drawClock = 1000, samples = [10, 255], seenHistory = []\<rparr>
          ((initial \<lparr>width = 800, height = 400, context2d = True\<rparr>)
            \<lparr>audioContextRef := Some \<lparr>ctx_id = 1, sampleRate = 44100\<rparr>,
             analyserRef := Some \<lparr>fftSize = 2048\<rparr>\<rparr>))))"
proof -
  define s where "s = (initial \<lparr>width = 800, height = 400, context2d = True\<rparr>)
       \<lparr>audioContextRef := Some \<lparr>ctx_id = 1, sampleRate = 44100\<rparr>,
        analyserRef := Some \<lparr>fftSize = 2048\<rparr>\<rparr>"
  define fi where "fi = \<lparr>clock = 1000, drawClock = 1000, samples = [10, 255], seenHistory = []\<rparr>"
  define cv where "cv = \<lparr>width = 800, height = 400, context2d = True\<rparr>"
  have h: "analyserRef s = Some \<lparr>fftSize = 2048\<rparr>" "canvasRef s = Some cv" "context2d cv"
    "audioContextRef s = Some \<lparr>ctx_id = 1, sampleRate = 44100\<rparr>" "seenHistory fi = []"
    by (simp_all add: s_def fi_def cv_def initial_def)
  have p0: "pendingFrames s = []" "nextFrameId s = 1" "drawn s = []"
    by (simp_all add: s_def initial_def)
  have n: "frequencyBinCount \<lparr>fftSize = 2048\<rparr> = 1024"
    by (simp add: frequencyBinCount_def)
  have byte: "getByteFrequencyData fi 1024 ! nat 1 = 255"
    by (simp add: getByteFrequencyData_def fi_def)
  from empty_history_render [OF h] obtain bars where
    d: "drawn (animate fi s) = drawn s @
        [[FillStyle ''#000'',
          FillRect (Num 0) (Num 0) (Num (real (width cv))) (Num (real (height cv))),
          FillStyle ''#00ff00'']
         @ bars @
         [StrokeStyle ''#ffffff'', LineWidth 2, BeginPath,
          MoveTo (frequencyToX 220 (sampleRate \<lparr>ctx_id = 1, sampleRate = 44100\<rparr> / 2) (real (width cv))) (Num 0),
          LineTo (frequencyToX 220 (sampleRate \<lparr>ctx_id = 1, sampleRate = 44100\<rparr> / 2) (real (width cv)))
                 (Num (real (height cv) * 2 / 3)),
          Stroke, FillStyle ''#ffffff'', Font ''12px Arial'',
          FillText ''220Hz'' (js_add (frequencyToX 220 (sampleRate \<lparr>ctx_id = 1, sampleRate = 44100\<rparr> / 2) (real (width cv))) 5)
                   (Num 15)]]"
    and b: "\<forall>k b. 2 * k < width cv
              \<and> binIndexAt (sampleRate \<lparr>ctx_id = 1, sampleRate = 44100\<rparr> / 2) (frequencyBinCount \<lparr>fftSize = 2048\<rparr>)
                   (real (width cv)) (real (2 * k)) = Some b
              \<and> 0 \<le> b \<and> b < int (frequencyBinCount \<lparr>fftSize = 2048\<rparr>) \<longrightarrow>
            FillRect (Num (real (2 * k)))
              (Num (real (height cv)
                    - real (getByteFrequencyData fi (frequencyBinCount \<lparr>fftSize = 2048\<rparr>) ! nat b) / 255
                      * real (height cv)))
              (Num 2)
              (Num (real (getByteFrequencyData fi (frequencyBinCount \<lparr>fftSize = 2048\<rparr>) ! nat b) / 255
                    * real (height cv)))
            \<in> set bars"
    and p: "pendingFrames (animate fi s) = pendingFrames s @ [nextFrameId s]"
    by blast
  from b [rule_format, of 0 1] have bar: "FillRect (Num 0) (Num 0) (Num 2) (Num 400) \<in> set bars"
    using bin_at_0 byte by (simp add: n cv_def)
  have l: "last (drawn (animate fi s)) =
        [FillStyle ''#000'',
          FillRect (Num 0) (Num 0) (Num 800) (Num 400),
          FillStyle ''#00ff00'']
         @ bars @
         [StrokeStyle ''#ffffff'', LineWidth 2, BeginPath,
          MoveTo (frequencyToX 220 22050 800) (Num 0),
          LineTo (frequencyToX 220 22050 800) (Num (800 / 3)),
          Stroke, FillStyle ''#ffffff'', Font ''12px Arial'',
          FillText ''220Hz'' (js_add (frequencyToX 220 22050 800) 5) (Num 15)]"
    unfolding d by (simp add: cv_def)
  have "pendingFrames (animate fi s) = [1]"
    using p by (simp add: p0)
  moreover have "FillRect (Num 0) (Num 0) (Num 2) (Num 400) \<in> set (last (drawn (animate fi s)))"
    unfolding l using bar by simp
  moreover have "LineTo (frequencyToX 220 22050 800) (Num (800 / 3)) \<in> set (last (drawn (animate fi s)))"
    unfolding l by simp
  ultimately show ?thesis
    using h unfolding s_def fi_def cv_def by simp
qed

lemma overlappingStarts_reachable: "reachable overlappingStarts"
  unfolding overlappingStarts_def
  by (intro reachable.settle reachable.select reachable.mount)

lemma race_deselect:
  "pendingFrames (selectMicrophone [] overlappingStarts) = [1]"
  "stoppedTracks (selectMicrophone [] overlappingStarts) = {2}"
  "closedContexts (selectMicrophone [] overlappingStarts) = {2}"
  "streamRef (selectMicrophone [] overlappingStarts) = None"
  "audioContextRef (selectMicrophone [] overlappingStarts) = None"
  "analyserRef (selectMicrophone [] overlappingStarts) = None"
  "isActive (selectMicrophone [] overlappingStarts) = False"
  by (simp_all add: selectMicrophone_def effectCleanup_def stop_fields stop_released race_fields)

lemma race_unmount:
  "pendingFrames (unmount overlappingStarts) = [1]"
  "stoppedTracks (unmount overlappingStarts) = {2}"
  "closedContexts (unmount overlappingStarts) = {2}"
  by (simp_all add: unmount_def effectCleanup_def stop_fields stop_released race_fields)

text \<open>
  C2. After \<open>stopAudioAnalysis\<close> no frame callback should run and every resource
  should be released. This fails when two calls of \<open>startAudioAnalysis\<close> overlap. In the state
  \<open>overlappingStarts\<close> the analysis is active with two frame requests pending, 1 and 2,
  and only the second in \<open>animationRef\<close>; the refs hold the second stream and context.
  \<open>stopAudioAnalysis\<close>, whether called directly, by deselecting the microphone or by
  unmounting, cancels request 2 only: request 1 stays pending and its callback still
  runs, and track 1 and audio context 1 of the first stream are never stopped or closed.
  (Lemma \<open>single_session_stop\<close> is the case of a single analysis, where all is released.)
\<close>

theorem overlapping_starts_leak:
  "reachable overlappingStarts
   \<and> isActive overlappingStarts
   \<and> pendingFrames overlappingStarts = [1, 2]
   \<and> pendingFrames (stopAudioAnalysis overlappingStarts) = [1]
   \<and> 1 \<notin> stoppedTracks (stopAudioAnalysis overlappingStarts)
   \<and> 1 \<notin> closedContexts (stopAudioAnalysis overlappingStarts)
   \<and> pendingFrames (selectMicrophone [] overlappingStarts) = [1]
   \<and> 1 \<notin> stoppedTracks (selectMicrophone [] overlappingStarts)
   \<and> 1 \<notin> closedContexts (selectMicrophone [] overlappingStarts)
   \<and> pendingFrames (unmount overlappingStarts) = [1]
   \<and> 1 \<notin> stoppedTracks (unmount overlappingStarts)
   \<and> 1 \<notin> closedContexts (unmount overlappingStarts)
   \<and> pendingFrames
        (runFrame (selectMicrophone [] overlappingStarts)
           \<lparr>clock = 3000, drawClock = 3000, samples = [], seenHistory = []\<rparr>) = []"
proof -
  have "pendingFrames
        (runFrame (selectMicrophone [] overlappingStarts)
           \<lparr>clock = 3000, drawClock = 3000, samples = [], seenHistory = []\<rparr>) = []"
    by (simp add: runFrame_def race_deselect animate_skip)
  then show ?thesis
    by (simp add: overlappingStarts_reachable race_fields race_deselect race_unmount
        stop_fields stop_released)
qed

text \<open>
  C3 (as amended). When the analyser, the canvas or its 2D context is missing at the
  start of a frame, \<open>animate\<close> returns the state as it is: no snapshot appended, nothing
  drawn, nothing logged, and no next frame requested, so this frame loop ends.
\<close>

theorem skipped_frame_ends_loop:
  assumes "analyserRef s = None \<or> canvasRef s = None
           \<or> (\<exists>cv. canvasRef s = Some cv \<and> \<not> context2d cv)"
  shows "animate fi s = s
       \<and> spectrumHistory (animate fi s) = spectrumHistory s
       \<and> drawn (animate fi s) = drawn s
       \<and> consoleErrors (animate fi s) = consoleErrors s
       \<and> pendingFrames (animate fi s) = pendingFrames s
       \<and> pendingFrames (runFrame s fi) = tl (pendingFrames s)"
proof -
  have a: "animate fi s' = s'" if "analyserRef s' = analyserRef s" "canvasRef s' = canvasRef s" for s'
    using assms that by (intro animate_skip) simp
  have "pendingFrames (runFrame s fi) = tl (pendingFrames s)"
    by (cases "pendingFrames s") (simp_all add: runFrame_def a)
  with a [of s] show ?thesis by simp
qed

theorem skipped_frame_ends_loop_witness:
  "analyserRef ((initial \<lparr>width = 800, height = 400, context2d = True\<rparr>)\<lparr>pendingFrames := [1]\<rparr>) = None
   \<and> pendingFrames (runFrame ((initial \<lparr>width = 800, height = 400, context2d = True\<rparr>)\<lparr>pendingFrames := [1]\<rparr>)
        \<lparr>clock = 1000, drawClock = 1000, samples = [], seenHistory = []\<rparr>) = []"
proof -
  have h: "analyserRef ((initial \<lparr>width = 800, height = 400, context2d = True\<rparr>)\<lparr>pendingFrames := [1]\<rparr>) = None"
    by (simp add: initial_def)
  then have "analyserRef ((initial \<lparr>width = 800, height = 400, context2d = True\<rparr>)\<lparr>pendingFrames := [1]\<rparr>) = None
      \<or> canvasRef ((initial \<lparr>width = 800, height = 400, context2d = True\<rparr>)\<lparr>pendingFrames := [1]\<rparr>) = None
      \<or> (\<exists>cv. canvasRef ((initial \<lparr>width = 800, height = 400, context2d = True\<rparr>)\<lparr>pendingFrames := [1]\<rparr>) = Some cv
              \<and> \<not> context2d cv)"
    by simp
  from skipped_frame_ends_loop [OF this, of "\<lparr>clock = 1000, drawClock = 1000, samples = [], seenHistory = []\<rparr>"] h
  show ?thesis by simp
qed

text \<open>
  A canvas without a 2D context: the analysis starts, the status is active, the first
  frame is skipped and no frame is pending afterwards.
\<close>

theorem skipped_frame_ends_loop_counterexample:
  "isActive (settleUserMedia
       \<lparr>getUserMedia = Inr \<lparr>tracks = [1]\<rparr>,
        newAudioContext = Inr \<lparr>ctx_id = 1, sampleRate = 44100\<rparr>,
        createAnalyser = Inr \<lparr>fftSize = 2048\<rparr>,
        createMediaStreamSource = Inr ()\<rparr>
       \<lparr>clock = 1000, drawClock = 1000, samples = [], seenHistory = []\<rparr>
       (selectMicrophone ''mic''
         (stopAudioAnalysis (initial \<lparr>width = 800, height = 400, context2d = False\<rparr>))))
   \<and> pendingFrames (settleUserMedia
       \<lparr>getUserMedia = Inr \<lparr>tracks = [1]\<rparr>,
        newAudioContext = Inr \<lparr>ctx_id = 1, sampleRate = 44100\<rparr>,
        createAnalyser = Inr \<lparr>fftSize = 2048\<rparr>,
        createMediaStreamSource = Inr ()\<rparr>
       \<lparr>clock = 1000, drawClock = 1000, samples = [], seenHistory = []\<rparr>
       (selectMicrophone ''mic''
         (stopAudioAnalysis (initial \<lparr>width = 800, height = 400, context2d = False\<rparr>)))) = []"
  by (simp add: lifecycle_defs)




end
